theory Spec2Isabelle
  imports Complex_Main "HOL-Library.Word"
begin

section \<open>Python values used by the backend\<close>

text \<open>
  The backend (\<^verbatim>\<open>Backend/app.py\<close>) is a Flask application with two form handlers.
  Python strings are modelled as \<^typ>\<open>string\<close>; a \<^typ>\<open>char\<close> stands for a code point
  below 256. In that range \<^verbatim>\<open>str.isspace\<close> and the regular-expression class
  \<^verbatim>\<open>\s\<close> hold exactly of the twelve characters of \<open>is_space\<close>, and \<^verbatim>\<open>\d\<close>
  holds exactly of the ten ASCII digits. Log output is not modelled.
\<close>

definition is_space :: "char \<Rightarrow> bool" where
  "is_space c \<longleftrightarrow> c \<in> {CHR 0x09, CHR 0x0A, CHR 0x0B, CHR 0x0C, CHR 0x0D,
     CHR 0x1C, CHR 0x1D, CHR 0x1E, CHR 0x1F, CHR 0x20, CHR 0x85, CHR 0xA0}"

definition is_digit :: "char \<Rightarrow> bool" where
  "is_digit c \<longleftrightarrow> c \<in> set ''0123456789''"

text \<open>\<^verbatim>\<open>s.strip()\<close>: leading and trailing whitespace removed.\<close>

definition strip :: "string \<Rightarrow> string" where
  "strip s = rev (dropWhile is_space (rev (dropWhile is_space s)))"

text \<open>
  \<^verbatim>\<open>s.replace(old, new)\<close>: every non-overlapping occurrence, left to right. With an
  empty \<open>old\<close> Python puts \<open>new\<close> before every character and at the end.
\<close>

function py_replace :: "string \<Rightarrow> string \<Rightarrow> string \<Rightarrow> string" where
  "py_replace old new [] = (if old = [] then new else [])"
| "py_replace old new (c # cs) =
     (if old = [] then new @ c # py_replace old new cs
      else if take (length old) (c # cs) = old
        then new @ py_replace old new (drop (length old) (c # cs))
      else c # py_replace old new cs)"
  by pat_completeness auto
termination
  by (relation "measure (\<lambda>(old, new, s). length s)") auto

text \<open>
  The values \<^verbatim>\<open>request.json\<close> and \<^verbatim>\<open>json.load\<close> yield. A float is held by its
  value (the two infinities and NaN, which Python's parser also reads, are left out).
  An object is an association list; \<open>map_of\<close> looks a key up.
\<close>

datatype json =
    JNull
  | JBool bool
  | JInt int
  | JFloat rat
  | JStr string
  | JArr "json list"
  | JObj "(string \<times> json) list"

text \<open>Python truthiness, as \<^verbatim>\<open>all([...])\<close> and \<^verbatim>\<open>if x\<close> apply it.\<close>

fun truthy :: "json \<Rightarrow> bool" where
  "truthy JNull = False"
| "truthy (JBool b) = b"
| "truthy (JInt n) = (n \<noteq> 0)"
| "truthy (JFloat q) = (q \<noteq> 0)"
| "truthy (JStr s) = (s \<noteq> [])"
| "truthy (JArr xs) = (xs \<noteq> [])"
| "truthy (JObj kvs) = (kvs \<noteq> [])"

fun type_name :: "json \<Rightarrow> string" where
  "type_name JNull = ''NoneType''"
| "type_name (JBool b) = ''bool''"
| "type_name (JInt n) = ''int''"
| "type_name (JFloat q) = ''float''"
| "type_name (JStr s) = ''str''"
| "type_name (JArr xs) = ''list''"
| "type_name (JObj kvs) = ''dict''"

text \<open>Exceptions carry the text \<^verbatim>\<open>str(e)\<close> gives.\<close>

datatype exn =
    AttributeError string
  | TypeError string
  | KeyError string
  | JSONDecodeError string
  | OSError string
  | MailError string
  | BadRequest string

fun exn_str :: "exn \<Rightarrow> string" where
  "exn_str (AttributeError m) = m"
| "exn_str (TypeError m) = m"
| "exn_str (KeyError m) = m"
| "exn_str (JSONDecodeError m) = m"
| "exn_str (OSError m) = m"
| "exn_str (MailError m) = m"
| "exn_str (BadRequest m) = m"

definition no_attribute :: "json \<Rightarrow> string \<Rightarrow> exn" where
  "no_attribute v a =
     AttributeError ([CHR 0x27] @ type_name v @ [CHR 0x27] @ '' object has no attribute ''
        @ [CHR 0x27] @ a @ [CHR 0x27])"

text \<open>\<^verbatim>\<open>data.get(k)\<close>: \<open>None\<close> for a missing key; only a dict has the method.\<close>

fun dict_get :: "json \<Rightarrow> string \<Rightarrow> exn + json" where
  "dict_get (JObj kvs) k = Inr (case map_of kvs k of None \<Rightarrow> JNull | Some v \<Rightarrow> v)"
| "dict_get v k = Inl (no_attribute v ''get'')"

text \<open>\<^verbatim>\<open>applications.append(data)\<close>: only a list has the method.\<close>

fun list_append :: "json \<Rightarrow> json \<Rightarrow> exn + json" where
  "list_append (JArr xs) x = Inr (JArr (xs @ [x]))"
| "list_append v x = Inl (no_attribute v ''append'')"

text \<open>\<^verbatim>\<open>html_body.replace(old, new)\<close> where \<open>new\<close> is any Python value.\<close>

fun str_replace :: "string \<Rightarrow> string \<Rightarrow> json \<Rightarrow> exn + string" where
  "str_replace s old (JStr new) = Inr (py_replace old new s)"
| "str_replace s old v =
     Inl (TypeError (''replace() argument 2 must be str, not '' @ type_name v))"

section \<open>Regular expressions\<close>

text \<open>
  Both patterns of the source are a sequence of character classes, each with a repetition
  count, between \<^verbatim>\<open>^\<close> and \<^verbatim>\<open>$\<close>. \<open>Rep c lo hi\<close> is the class \<open>c\<close> repeated at
  least \<open>lo\<close> and at most \<open>hi\<close> times (no upper bound for \<open>None\<close>). \<open>re_match\<close> is
  \<^verbatim>\<open>re.match(pattern, s)\<close> seen as a truth value: some split of \<open>s\<close> follows the items,
  and what is left satisfies \<^verbatim>\<open>$\<close>, which in Python (without \<^verbatim>\<open>re.MULTILINE\<close>) holds at
  the end of the string and also just before a line feed that ends the string.
\<close>

datatype re_item = Rep "char \<Rightarrow> bool" nat "nat option"

definition at_dollar :: "string \<Rightarrow> bool" where
  "at_dollar s \<longleftrightarrow> s = [] \<or> s = [CHR 0x0A]"

fun re_match :: "re_item list \<Rightarrow> string \<Rightarrow> bool" where
  "re_match [] s = at_dollar s"
| "re_match (Rep c lo hi # ps) s =
     list_ex (\<lambda>k. list_all c (take k s) \<and> re_match ps (drop k s))
       [lo ..< Suc (case hi of None \<Rightarrow> length s | Some h \<Rightarrow> min h (length s))]"

definition non_space_at :: "char \<Rightarrow> bool" where
  "non_space_at c \<longleftrightarrow> \<not> is_space c \<and> c \<noteq> CHR ''@''"

text \<open>\<^verbatim>\<open>^[^\s@]+@[^\s@]+\.[^\s@]{2,}$\<close>\<close>

definition email_re :: "re_item list" where
  "email_re =
     [Rep non_space_at 1 None,
      Rep (\<lambda>c. c = CHR ''@'') 1 (Some 1),
      Rep non_space_at 1 None,
      Rep (\<lambda>c. c = CHR ''.'') 1 (Some 1),
      Rep non_space_at 2 None]"

text \<open>\<^verbatim>\<open>^[6-9]\d{9}$\<close>\<close>

definition phone_re :: "re_item list" where
  "phone_re =
     [Rep (\<lambda>c. c \<in> set ''6789'') 1 (Some 1),
      Rep is_digit 9 (Some 9)]"

section \<open>Configuration and paths\<close>

text \<open>
  The module-level settings: the directory of \<^verbatim>\<open>app.py\<close>, the two addresses read
  from the environment (\<open>None\<close> when the variable is unset) and werkzeug's
  \<^verbatim>\<open>secure_filename\<close>, which is not part of the repository and is taken as given.
\<close>

record config =
  base_dir :: string
  mail_default_sender :: "string option"
  receiver_email :: "string option"
  secure_filename :: "string \<Rightarrow> string"

text \<open>\<^verbatim>\<open>os.path.join(a, b)\<close> on POSIX.\<close>

definition path_join :: "string \<Rightarrow> string \<Rightarrow> string" where
  "path_join a b =
     (if b \<noteq> [] \<and> hd b = CHR ''/'' then b
      else if a = [] \<or> last a = CHR ''/'' then a @ b
      else a @ ''/'' @ b)"

definition RESUMES_FOLDER :: "config \<Rightarrow> string" where
  "RESUMES_FOLDER cfg = path_join (base_dir cfg) ''resumes''"

definition APPLICATIONS_DB :: "config \<Rightarrow> string" where
  "APPLICATIONS_DB cfg = path_join (base_dir cfg) ''applications.json''"

text \<open>
  \<^verbatim>\<open>str(uuid.uuid4())\<close>: the UUID is a 128-bit integer drawn by the environment, printed
  as 32 lower-case hexadecimal digits in groups of 8, 4, 4, 4 and 12.
\<close>

definition hex_char :: "nat \<Rightarrow> char" where
  "hex_char d = ''0123456789abcdef'' ! d"

fun hex_digits :: "nat \<Rightarrow> nat \<Rightarrow> string" where
  "hex_digits 0 v = []"
| "hex_digits (Suc n) v = hex_digits n (v div 16) @ [hex_char (v mod 16)]"

definition uuid_hex :: "128 word \<Rightarrow> string" where
  "uuid_hex u = hex_digits 32 (unat u)"

definition uuid_str :: "128 word \<Rightarrow> string" where
  "uuid_str u =
     (let h = uuid_hex u
      in take 8 h @ ''-'' @ take 4 (drop 8 h) @ ''-'' @ take 4 (drop 12 h) @ ''-''
         @ take 4 (drop 16 h) @ ''-'' @ drop 20 h)"

section \<open>State: files and sent mail\<close>

text \<open>
  A file is its bytes, or a JSON document held by the value it denotes: \<open>JsonText v\<close> is
  what \<^verbatim>\<open>json.dump(v, f, indent=4)\<close> leaves in the file and what \<^verbatim>\<open>json.load\<close> reads
  back as \<open>v\<close>; it is never zero bytes long. The store file is the only file the program
  parses; \<open>Bytes b\<close> at its path is content \<^verbatim>\<open>json.load\<close> rejects, or an empty file.
  The outbox lists the messages \<^verbatim>\<open>mail.send\<close> has accepted.
\<close>

datatype fdata = Bytes string | JsonText json

text \<open>An f-string: literal text and interpolated values.\<close>

datatype piece = Lit string | Val json

record attachment =
  a_filename :: string
  a_content_type :: string
  a_data :: string
  a_headers :: "(string \<times> string) list"

record email =
  m_subject :: "piece list"
  m_recipients :: "json list"
  m_sender :: "string option"
  m_body :: "piece list option"
  m_html :: "string option"
  m_attachments :: "attachment list"

record state =
  fs :: "string \<rightharpoonup> fdata"
  outbox :: "email list"

text \<open>
  What the environment decides is part of the request: whether a write or a send goes
  through. A file write can fail at \<^verbatim>\<open>open\<close>, leaving the file as it was, or later,
  leaving part of the content.
\<close>

datatype io_outcome = IoOk | IoOpenFail exn | IoWriteFail exn string

definition write_file :: "string \<Rightarrow> fdata \<Rightarrow> io_outcome \<Rightarrow> state \<Rightarrow> (exn + unit) \<times> state" where
  "write_file path d out s =
     (case out of
        IoOk \<Rightarrow> (Inr (), s\<lparr>fs := (fs s)(path \<mapsto> d)\<rparr>)
      | IoOpenFail e \<Rightarrow> (Inl e, s)
      | IoWriteFail e part \<Rightarrow> (Inl e, s\<lparr>fs := (fs s)(path \<mapsto> Bytes part)\<rparr>))"

text \<open>\<^verbatim>\<open>mail.send(msg)\<close>: \<open>None\<close> when it goes through, the exception otherwise.\<close>

definition mail_send :: "email \<Rightarrow> exn option \<Rightarrow> state \<Rightarrow> (exn + unit) \<times> state" where
  "mail_send msg out s =
     (case out of
        None \<Rightarrow> (Inr (), s\<lparr>outbox := outbox s @ [msg]\<rparr>)
      | Some e \<Rightarrow> (Inl e, s))"

text \<open>\<^verbatim>\<open>Message(subject=..., recipients=[...], sender=...)\<close>\<close>

definition Message :: "piece list \<Rightarrow> json list \<Rightarrow> string option \<Rightarrow> email" where
  "Message subj rcpts sndr =
     \<lparr>m_subject = subj, m_recipients = rcpts, m_sender = sndr,
      m_body = None, m_html = None, m_attachments = []\<rparr>"

section \<open>Helper functions of the source\<close>

subsection \<open>\<^verbatim>\<open>save_application_data\<close>\<close>

text \<open>
  \<open>rd\<close> is the exception \<^verbatim>\<open>open\<close> or \<^verbatim>\<open>read\<close> raises on the store file, if any,
  \<open>wr\<close> the outcome of writing it back. \<open>is_empty_file\<close> is
  \<^verbatim>\<open>os.path.getsize(...) == 0\<close>.
\<close>

definition is_empty_file :: "fdata \<Rightarrow> bool" where
  "is_empty_file d \<longleftrightarrow> d = Bytes []"

definition load_applications :: "config \<Rightarrow> exn option \<Rightarrow> state \<Rightarrow> exn + json" where
  "load_applications cfg rd s =
     (case fs s (APPLICATIONS_DB cfg) of
        None \<Rightarrow> Inr (JArr [])
      | Some d \<Rightarrow>
          if is_empty_file d then Inr (JArr [])
          else (case rd of
                  Some e \<Rightarrow> Inl e
                | None \<Rightarrow>
                    (case d of
                       JsonText v \<Rightarrow> Inr v
                     | Bytes b \<Rightarrow> Inl (JSONDecodeError ''Expecting value''))))"

definition save_application_try ::
  "config \<Rightarrow> json \<Rightarrow> exn option \<Rightarrow> io_outcome \<Rightarrow> state \<Rightarrow> (exn + bool) \<times> state" where
  "save_application_try cfg data rd wr s =
     (case load_applications cfg rd s of
        Inl e \<Rightarrow> (Inl e, s)
      | Inr applications \<Rightarrow>
          (case list_append applications data of
             Inl e \<Rightarrow> (Inl e, s)
           | Inr applications' \<Rightarrow>
               (case write_file (APPLICATIONS_DB cfg) (JsonText applications') wr s of
                  (Inl e, s') \<Rightarrow> (Inl e, s')
                | (Inr u, s') \<Rightarrow> (Inr True, s'))))"

definition save_application_data ::
  "config \<Rightarrow> json \<Rightarrow> exn option \<Rightarrow> io_outcome \<Rightarrow> state \<Rightarrow> (exn + bool) \<times> state" where
  "save_application_data cfg data rd wr s =
     (case save_application_try cfg data rd wr s of
        (Inl e, s') \<Rightarrow> (Inr False, s')
      | (Inr b, s') \<Rightarrow> (Inr b, s'))"

subsection \<open>\<^verbatim>\<open>send_career_reply_email\<close>\<close>

text \<open>
  The template and the logo are files the program only reads; what it finds there is
  given with the call: the text of the template or the exception reading it raises, and
  the logo absent, zero bytes long, readable, or failing to be read.
\<close>

datatype logo = LogoAbsent | LogoEmpty | LogoData string | LogoUnreadable exn

definition logo_attachment :: "string \<Rightarrow> attachment" where
  "logo_attachment img =
     \<lparr>a_filename = ''company_logo.png'', a_content_type = ''image/png'', a_data = img,
      a_headers = [(''Content-ID'', ''<company_logo>''), (''Content-Disposition'', ''inline'')]\<rparr>"

definition send_html ::
  "email \<Rightarrow> string \<Rightarrow> exn option \<Rightarrow> state \<Rightarrow> (exn + bool) \<times> state" where
  "send_html msg html_body snd_out s =
     (case mail_send (msg\<lparr>m_html := Some html_body\<rparr>) snd_out s of
        (Inl e, s') \<Rightarrow> (Inl e, s')
      | (Inr u, s') \<Rightarrow> (Inr True, s'))"

definition career_try ::
  "email \<Rightarrow> json \<Rightarrow> json \<Rightarrow> json \<Rightarrow> (exn + string) \<Rightarrow> logo \<Rightarrow> exn option \<Rightarrow> state
     \<Rightarrow> (exn + bool) \<times> state" where
  "career_try msg first_name last_name role_name tmpl lg snd_out s =
     (case tmpl of
        Inl e \<Rightarrow> (Inl e, s)
      | Inr html0 \<Rightarrow>
     (case str_replace html0 ''{first_name}'' first_name of
        Inl e \<Rightarrow> (Inl e, s)
      | Inr html1 \<Rightarrow>
     (case str_replace html1 ''{last_name}'' last_name of
        Inl e \<Rightarrow> (Inl e, s)
      | Inr html2 \<Rightarrow>
     (case str_replace html2 ''{role_name}'' role_name of
        Inl e \<Rightarrow> (Inl e, s)
      | Inr html_body \<Rightarrow>
     (case lg of
        LogoAbsent \<Rightarrow> send_html msg html_body snd_out s
      | LogoEmpty \<Rightarrow> send_html msg html_body snd_out s
      | LogoUnreadable e \<Rightarrow> (Inl e, s)
      | LogoData img \<Rightarrow>
          send_html (msg\<lparr>m_attachments := m_attachments msg @ [logo_attachment img]\<rparr>)
            html_body snd_out s)))))"

definition career_message :: "config \<Rightarrow> json \<Rightarrow> json \<Rightarrow> email" where
  "career_message cfg recipient role_name =
     Message [Lit ''Application Received for '', Val role_name,
              Lit '' - InGrowwth Innovations!'']
       [recipient] (mail_default_sender cfg)"

definition send_career_reply_email ::
  "config \<Rightarrow> json \<Rightarrow> json \<Rightarrow> json \<Rightarrow> json \<Rightarrow> (exn + string) \<Rightarrow> logo \<Rightarrow> exn option \<Rightarrow> state
     \<Rightarrow> (exn + bool) \<times> state" where
  "send_career_reply_email cfg recipient first_name last_name role_name tmpl lg snd_out s =
     (case career_try (career_message cfg recipient role_name)
             first_name last_name role_name tmpl lg snd_out s of
        (Inl e, s') \<Rightarrow> (Inr False, s')
      | (Inr b, s') \<Rightarrow> (Inr b, s'))"

subsection \<open>\<^verbatim>\<open>send_contact_reply_email\<close>\<close>

definition contact_reply_body :: "json \<Rightarrow> json \<Rightarrow> piece list" where
  "contact_reply_body name subject =
     [Lit ''\<newline>Dear '', Val name,
      Lit '',\<newline>\<newline>Thank you for contacting InGrowwth Innovations! We have successfully received your inquiry regarding: '',
      Val subject,
      Lit ''.\<newline>\<newline>We appreciate you reaching out and will review your message promptly. Our team will contact you very soon, typically within 24-48 business hours.\<newline>\<newline>In the meantime, feel free to explore more about our services on our website.\<newline>\<newline>Best regards,\<newline>\<newline>The Team at InGrowwth Innovations\<newline>'']"

definition send_contact_reply_email ::
  "config \<Rightarrow> json \<Rightarrow> json \<Rightarrow> json \<Rightarrow> exn option \<Rightarrow> state \<Rightarrow> (exn + bool) \<times> state" where
  "send_contact_reply_email cfg recipient name subject snd_out s =
     (let msg = (Message [Lit ''Inquiry Received: '', Val subject,
                          Lit '' - InGrowwth Innovations'']
                   [recipient] (mail_default_sender cfg))
                \<lparr>m_body := Some (contact_reply_body name subject)\<rparr>
      in case mail_send msg snd_out s of
           (Inl e, s') \<Rightarrow> (Inr False, s')
         | (Inr u, s') \<Rightarrow> (Inr True, s'))"

section \<open>Routes\<close>

text \<open>A response is the status code and the dict given to \<^verbatim>\<open>jsonify\<close>.\<close>

record response =
  http_status :: nat
  body :: "(string \<times> json) list"

definition reply :: "nat \<Rightarrow> bool \<Rightarrow> string \<Rightarrow> response" where
  "reply code ok msg =
     \<lparr>http_status = code, body = [(''success'', JBool ok), (''message'', JStr msg)]\<rparr>"

subsection \<open>\<^verbatim>\<open>POST /submit_contact\<close>\<close>

text \<open>
  \<open>c_json\<close> is what \<^verbatim>\<open>request.json\<close> gives: the parsed body, or the exception it
  raises. The two other fields are the outcomes of the two sends, should they be tried.
\<close>

record contact_request =
  c_json :: "exn + json"
  company_send :: "exn option"
  client_send :: "exn option"

definition company_message :: "config \<Rightarrow> string \<Rightarrow> json \<Rightarrow> json \<Rightarrow> json \<Rightarrow> json \<Rightarrow> email" where
  "company_message cfg receiver name email subject message =
     (Message [Lit ''New Contact Form Submission: '', Val subject]
        [JStr receiver] (mail_default_sender cfg))
     \<lparr>m_body := Some
        [Lit ''\<newline>Hello InGrowwth Innovations Team,\<newline>\<newline>You have received a new message from your website contact form:\<newline>\<newline>Name: '',
         Val name, Lit ''\<newline>Email: '', Val email, Lit ''\<newline>Subject: '', Val subject,
         Lit ''\<newline>Message:\<newline>'', Val message,
         Lit ''\<newline>\<newline>---\<newline>This message was sent from your website.\<newline>'']\<rparr>"

definition notify_company ::
  "config \<Rightarrow> json \<Rightarrow> json \<Rightarrow> json \<Rightarrow> json \<Rightarrow> exn option \<Rightarrow> state \<Rightarrow> state" where
  "notify_company cfg name email subject message snd_out s =
     (case receiver_email cfg of
        None \<Rightarrow> s
      | Some receiver \<Rightarrow>
          if receiver = [] then s
          else snd (mail_send (company_message cfg receiver name email subject message)
                      snd_out s))"

definition contact_ok_message :: "bool \<Rightarrow> string" where
  "contact_ok_message client_email_sent =
     ''Your inquiry has been submitted successfully!'' @
     (if client_email_sent then '' You'll receive a confirmation email shortly.''
      else '' There was an issue sending a confirmation email, but we received your message and will contact you soon.'')"

definition submit_contact_try ::
  "config \<Rightarrow> contact_request \<Rightarrow> state \<Rightarrow> (exn + response) \<times> state" where
  "submit_contact_try cfg req s =
     (case c_json req of
        Inl e \<Rightarrow> (Inl e, s)
      | Inr data \<Rightarrow>
     (case dict_get data ''name'' of
        Inl e \<Rightarrow> (Inl e, s)
      | Inr name \<Rightarrow>
     (case dict_get data ''email'' of
        Inl e \<Rightarrow> (Inl e, s)
      | Inr email \<Rightarrow>
     (case dict_get data ''subject'' of
        Inl e \<Rightarrow> (Inl e, s)
      | Inr subject \<Rightarrow>
     (case dict_get data ''message'' of
        Inl e \<Rightarrow> (Inl e, s)
      | Inr message \<Rightarrow>
          if \<not> list_all truthy [name, email, subject, message]
          then (Inr (reply 400 False
                  ''All required fields (Name, Email, Subject, Message) are missing.''), s)
          else
            (let s1 = notify_company cfg name email subject message (company_send req) s
             in case send_contact_reply_email cfg email name subject (client_send req) s1 of
                  (Inl e, s2) \<Rightarrow> (Inl e, s2)
                | (Inr client_email_sent, s2) \<Rightarrow>
                    (Inr (reply 200 True (contact_ok_message client_email_sent)), s2)))))))"

definition submit_contact :: "config \<Rightarrow> contact_request \<Rightarrow> state \<Rightarrow> response \<times> state" where
  "submit_contact cfg req s =
     (case submit_contact_try cfg req s of
        (Inl e, s') \<Rightarrow>
          (reply 500 False (''An unexpected error occurred on the server: '' @ exn_str e), s')
      | (Inr r, s') \<Rightarrow> (r, s'))"

subsection \<open>\<^verbatim>\<open>POST /submit_application\<close>\<close>

text \<open>
  \<open>form\<close> lists the form fields in the order sent; \<^verbatim>\<open>request.form.to_dict()\<close> keeps
  the first value of each name, as \<open>map_of\<close> does. \<open>resume\<close> is
  \<^verbatim>\<open>request.files.get('resume')\<close>. The rest is what the environment decides during
  the request: the two UUIDs drawn, the clock, and the outcomes of the file operations
  and of the send.
\<close>

record upload =
  u_filename :: string
  u_content :: string

record app_request =
  form :: "(string \<times> string) list"
  resume :: "upload option"
  file_uuid :: "128 word"
  id_uuid :: "128 word"
  now :: string
  resume_save :: io_outcome
  store_read :: "exn option"
  store_write :: io_outcome
  template :: "exn + string"
  logo_file :: logo
  career_send :: "exn option"

definition required_fields :: "string list" where
  "required_fields =
     [''firstName'', ''lastName'', ''email'', ''phone'', ''workExp'', ''applyingFor'',
      ''github'', ''linkedin'']"

text \<open>\<^verbatim>\<open>field in data and data[field].strip()\<close>\<close>

definition field_filled :: "(string \<rightharpoonup> string) \<Rightarrow> string \<Rightarrow> bool" where
  "field_filled data field =
     (case data field of None \<Rightarrow> False | Some v \<Rightarrow> strip v \<noteq> [])"

text \<open>\<^verbatim>\<open>data.get(k)\<close> on the form dict, whose values are strings.\<close>

definition form_get :: "(string \<rightharpoonup> string) \<Rightarrow> string \<Rightarrow> json" where
  "form_get data k = (case data k of None \<Rightarrow> JNull | Some v \<Rightarrow> JStr v)"

definition resume_path :: "config \<Rightarrow> app_request \<Rightarrow> upload \<Rightarrow> string" where
  "resume_path cfg req up =
     (let filename = secure_filename cfg (u_filename up);
          unique_filename = uuid_str (file_uuid req) @ ''-'' @ filename
      in path_join (RESUMES_FOLDER cfg) unique_filename)"

text \<open>\<^verbatim>\<open>resume_file.save(resume_path)\<close>\<close>

definition save_resume ::
  "config \<Rightarrow> app_request \<Rightarrow> upload \<Rightarrow> state \<Rightarrow> (exn + unit) \<times> state" where
  "save_resume cfg req up s =
     write_file (resume_path cfg req up) (Bytes (u_content up)) (resume_save req) s"

definition application_data :: "config \<Rightarrow> app_request \<Rightarrow> upload \<Rightarrow> json" where
  "application_data cfg req up =
     (let data = map_of (form req)
      in JObj
        [(''id'', JStr (uuid_str (id_uuid req))),
         (''date'', JStr (now req)),
         (''firstName'', form_get data ''firstName''),
         (''lastName'', form_get data ''lastName''),
         (''email'', form_get data ''email''),
         (''phone'', form_get data ''phone''),
         (''workExp'', form_get data ''workExp''),
         (''applyingFor'', form_get data ''applyingFor''),
         (''github'', form_get data ''github''),
         (''linkedin'', form_get data ''linkedin''),
         (''intro'', form_get data ''intro''),
         (''resume_path'', JStr (resume_path cfg req up))])"

definition key_error :: "string \<Rightarrow> exn" where
  "key_error k = KeyError ([CHR 0x27] @ k @ [CHR 0x27])"

definition application_ok :: response where
  "application_ok =
     \<lparr>http_status = 200,
      body = [(''success'', JBool True), (''status'', JStr ''ok''),
              (''message'', JStr ''Thank you for your application! We will review it and get back to you soon.'')]\<rparr>"

definition submit_application_try ::
  "config \<Rightarrow> app_request \<Rightarrow> state \<Rightarrow> (exn + response) \<times> state" where
  "submit_application_try cfg req s =
     (let data = map_of (form req) in
      if \<not> list_all (field_filled data) required_fields
      then (Inr (reply 400 False ''All required fields must be filled.''), s)
      else
     (case data ''email'' of
        None \<Rightarrow> (Inl (key_error ''email''), s)
      | Some email \<Rightarrow>
      if \<not> re_match email_re email
      then (Inr (reply 400 False ''Invalid email format.''), s)
      else
     (case data ''phone'' of
        None \<Rightarrow> (Inl (key_error ''phone''), s)
      | Some phone \<Rightarrow>
      if \<not> re_match phone_re phone
      then (Inr (reply 400 False ''Invalid phone number format.''), s)
      else
     (case resume req of
        None \<Rightarrow> (Inr (reply 400 False ''Resume file is required.''), s)
      | Some up \<Rightarrow>
      if u_filename up = []
      then (Inr (reply 400 False ''Resume file is required.''), s)
      else
     (case save_resume cfg req up s of
        (Inl e, s1) \<Rightarrow> (Inl e, s1)
      | (Inr u, s1) \<Rightarrow>
     (case save_application_data cfg (application_data cfg req up)
             (store_read req) (store_write req) s1 of
        (Inl e, s2) \<Rightarrow> (Inl e, s2)
      | (Inr saved, s2) \<Rightarrow>
      if \<not> saved
      then (Inr (reply 500 False ''Failed to save application. Please try again later.''), s2)
      else
     (case send_career_reply_email cfg (form_get data ''email'') (form_get data ''firstName'')
             (form_get data ''lastName'') (form_get data ''applyingFor'')
             (template req) (logo_file req) (career_send req) s2 of
        (Inl e, s3) \<Rightarrow> (Inl e, s3)
      | (Inr sent, s3) \<Rightarrow> (Inr application_ok, s3))))))))"

definition submit_application :: "config \<Rightarrow> app_request \<Rightarrow> state \<Rightarrow> response \<times> state" where
  "submit_application cfg req s =
     (case submit_application_try cfg req s of
        (Inl e, s') \<Rightarrow>
          (reply 500 False ''An unexpected error occurred. Please try again later.'', s')
      | (Inr r, s') \<Rightarrow> (r, s'))"

text \<open>Requests handled one after the other.\<close>

fun run :: "config \<Rightarrow> app_request list \<Rightarrow> state \<Rightarrow> response list \<times> state" where
  "run cfg [] s = ([], s)"
| "run cfg (req # reqs) s =
     (case submit_application cfg req s of
        (r, s1) \<Rightarrow> (case run cfg reqs s1 of (rs, s2) \<Rightarrow> (r # rs, s2)))"

section \<open>Predicates used to state the properties\<close>

text \<open>The four fields the contact handler reads.\<close>

definition contact_fields :: "string list" where
  "contact_fields = [''name'', ''email'', ''subject'', ''message'']"

text \<open>
  A request passes every check of the application handler: the required fields, the two
  patterns, and an upload with a file name.
\<close>

definition accepted :: "app_request \<Rightarrow> upload \<Rightarrow> bool" where
  "accepted req up \<longleftrightarrow>
     list_all (field_filled (map_of (form req))) required_fields \<and>
     (case map_of (form req) ''email'' of None \<Rightarrow> False | Some e \<Rightarrow> re_match email_re e) \<and>
     (case map_of (form req) ''phone'' of None \<Rightarrow> False | Some p \<Rightarrow> re_match phone_re p) \<and>
     resume req = Some up \<and> u_filename up \<noteq> []"

text \<open>What the handler does once the request has passed every check.\<close>

definition after_checks :: "config \<Rightarrow> app_request \<Rightarrow> upload \<Rightarrow> state \<Rightarrow> response \<times> state" where
  "after_checks cfg req up s =
     (case save_resume cfg req up s of
        (Inl e, s1) \<Rightarrow> (reply 500 False ''An unexpected error occurred. Please try again later.'', s1)
      | (Inr u, s1) \<Rightarrow>
          (case save_application_data cfg (application_data cfg req up)
                  (store_read req) (store_write req) s1 of
             (Inr True, s2) \<Rightarrow>
               (application_ok,
                snd (send_career_reply_email cfg (form_get (map_of (form req)) ''email'')
                  (form_get (map_of (form req)) ''firstName'')
                  (form_get (map_of (form req)) ''lastName'')
                  (form_get (map_of (form req)) ''applyingFor'')
                  (template req) (logo_file req) (career_send req) s2))
           | (_, s2) \<Rightarrow>
               (reply 500 False ''Failed to save application. Please try again later.'', s2)))"

text \<open>
  The records in the store file, when it holds a JSON array, and what it means for a
  record that its resume is on disk: its \<^verbatim>\<open>resume_path\<close> entry (the spec's
  \<open>resumePath\<close>) is a non-empty string naming an existing file.
\<close>

definition store_records :: "config \<Rightarrow> state \<Rightarrow> json list" where
  "store_records cfg s =
     (case fs s (APPLICATIONS_DB cfg) of
        Some (JsonText (JArr rs)) \<Rightarrow> rs
      | _ \<Rightarrow> [])"

definition resume_on_disk :: "state \<Rightarrow> json \<Rightarrow> bool" where
  "resume_on_disk s r =
     (case r of
        JObj kvs \<Rightarrow>
          (case map_of kvs ''resume_path'' of
             Some (JStr p) \<Rightarrow> p \<noteq> [] \<and> fs s p \<noteq> None
           | _ \<Rightarrow> False)
      | _ \<Rightarrow> False)"



text \<open>
  The two formats in the words of the specification. A phone number is exactly ten
  decimal digits, the first one of 6, 7, 8, 9. An email address is one or more characters
  that are neither whitespace nor \<open>@\<close>, then \<open>@\<close> (at index \<open>i\<close>), then one or more
  such characters, then a dot (at index \<open>j\<close>), then two or more such characters.
\<close>

definition phone_shape :: "string \<Rightarrow> bool" where
  "phone_shape p \<longleftrightarrow> length p = 10 \<and> list_all is_digit p \<and> hd p \<in> set ''6789''"

definition email_shape :: "string \<Rightarrow> bool" where
  "email_shape e \<longleftrightarrow>
     list_ex (\<lambda>i. list_ex (\<lambda>j.
         1 \<le> i \<and> list_all non_space_at (take i e) \<and> e ! i = CHR ''@'' \<and>
         i + 2 \<le> j \<and> list_all non_space_at (take (j - Suc i) (drop (Suc i) e)) \<and>
         e ! j = CHR ''.'' \<and>
         j + 3 \<le> length e \<and> list_all non_space_at (drop (Suc j) e))
       [0 ..< length e]) [0 ..< length e]"

text \<open>A configuration, a well-formed request and two states, for concrete runs.\<close>

definition demo_config :: config where
  "demo_config =
     \<lparr>base_dir = ''/srv/app'', mail_default_sender = Some ''hr@example.com'',
      receiver_email = Some ''ops@example.com'', secure_filename = (\<lambda>n. n)\<rparr>"

definition demo_form :: "(string \<times> string) list" where
  "demo_form =
     [(''firstName'', ''Ann''), (''lastName'', ''Lee''), (''email'', ''ann@example.com''),
      (''phone'', ''9123456789''), (''workExp'', ''2''), (''applyingFor'', ''Developer''),
      (''github'', ''github.com/ann''), (''linkedin'', ''linkedin.com/in/ann'')]"

definition demo_upload :: upload where
  "demo_upload = \<lparr>u_filename = ''cv.pdf'', u_content = ''%PDF''\<rparr>"

definition demo_request :: "128 word \<Rightarrow> 128 word \<Rightarrow> app_request" where
  "demo_request fu iu =
     \<lparr>form = demo_form, resume = Some demo_upload, file_uuid = fu, id_uuid = iu,
      now = ''2024-01-01T00:00:00'', resume_save = IoOk, store_read = None,
      store_write = IoOk, template = Inr ''Dear {first_name}'', logo_file = LogoAbsent,
      career_send = Some (MailError ''unreachable'')\<rparr>"

definition demo_state :: state where
  "demo_state = \<lparr>fs = Map.empty, outbox = []\<rparr>"

definition demo_broken :: state where
  "demo_broken = \<lparr>fs = [APPLICATIONS_DB demo_config \<mapsto> Bytes ''{''], outbox = []\<rparr>"

section \<open>Paths\<close>

lemma length_hex_digits: "length (hex_digits n v) = n"
  by (induction n arbitrary: v) auto

lemma hex_char_not_slash: "d < 16 \<Longrightarrow> hex_char d \<noteq> CHR ''/''"
proof -
  assume "d < 16"
  then have "hex_char d \<in> set ''0123456789abcdef''"
    unfolding hex_char_def by (intro nth_mem) simp
  then show ?thesis by auto
qed

lemma hex_digits_no_slash: "CHR ''/'' \<notin> set (hex_digits n v)"
proof (induction n arbitrary: v)
  case 0
  show ?case by simp
next
  case (Suc n)
  have "hex_char (v mod 16) \<noteq> CHR ''/''"
    by (rule hex_char_not_slash) simp
  with Suc show ?case by auto
qed

lemma uuid_str_first: "\<exists>c cs. uuid_str u = c # cs \<and> c \<noteq> CHR ''/''"
proof -
  obtain c cs where h: "uuid_hex u = c # cs"
    using length_hex_digits [of 32 "unat u"] unfolding uuid_hex_def
    by (cases "hex_digits 32 (unat u)") auto
  have "c \<in> set (uuid_hex u)" using h by simp
  then have "c \<noteq> CHR ''/''"
    using hex_digits_no_slash [of 32 "unat u"] unfolding uuid_hex_def by auto
  then show ?thesis
    unfolding uuid_str_def Let_def h by simp
qed

lemma path_join_relative:
  "b \<noteq> [] \<Longrightarrow> hd b \<noteq> CHR ''/'' \<Longrightarrow>
   path_join a b = (if a = [] \<or> last a = CHR ''/'' then a else a @ ''/'') @ b"
  by (simp add: path_join_def)

lemma resume_path_eq:
  "\<exists>b. resume_path cfg req up =
     (if base_dir cfg = [] \<or> last (base_dir cfg) = CHR ''/'' then base_dir cfg
      else base_dir cfg @ ''/'') @ ''resumes/'' @ b"
proof -
  obtain c cs where u: "uuid_str (file_uuid req) = c # cs" and c: "c \<noteq> CHR ''/''"
    using uuid_str_first by blast
  show ?thesis
    unfolding resume_path_def RESUMES_FOLDER_def Let_def u
    by (simp add: path_join_relative c)
qed

lemma applications_db_eq:
  "APPLICATIONS_DB cfg =
     (if base_dir cfg = [] \<or> last (base_dir cfg) = CHR ''/'' then base_dir cfg
      else base_dir cfg @ ''/'') @ ''applications.json''"
  unfolding APPLICATIONS_DB_def by (simp add: path_join_relative)

lemma resume_path_not_db: "resume_path cfg req up \<noteq> APPLICATIONS_DB cfg"
proof -
  obtain b where "resume_path cfg req up =
     (if base_dir cfg = [] \<or> last (base_dir cfg) = CHR ''/'' then base_dir cfg
      else base_dir cfg @ ''/'') @ ''resumes/'' @ b"
    using resume_path_eq by blast
  then show ?thesis
    by (simp add: applications_db_eq)
qed

lemma resume_path_nonempty: "resume_path cfg req up \<noteq> []"
  using resume_path_eq [of cfg req up] by auto

section \<open>The helpers and the application handler, case by case\<close>

lemma write_file_cases:
  "write_file p d out s = (r, s') \<Longrightarrow>
     (r = Inr () \<and> out = IoOk \<and> s' = s\<lparr>fs := (fs s)(p \<mapsto> d)\<rparr>) \<or>
     (\<exists>e. r = Inl e \<and> out = IoOpenFail e \<and> s' = s) \<or>
     (\<exists>e part. r = Inl e \<and> out = IoWriteFail e part \<and> s' = s\<lparr>fs := (fs s)(p \<mapsto> Bytes part)\<rparr>)"
  by (auto simp: write_file_def split: io_outcome.splits)

lemma save_application_data_returns:
  "\<exists>b s'. save_application_data cfg data rd wr s = (Inr b, s')"
  by (auto simp: save_application_data_def split: prod.splits sum.splits)

lemma save_application_data_True:
  assumes "save_application_data cfg data rd wr s = (Inr True, s')"
  shows "\<exists>old. load_applications cfg rd s = Inr (JArr old) \<and> wr = IoOk \<and>
           s' = s\<lparr>fs := (fs s)(APPLICATIONS_DB cfg \<mapsto> JsonText (JArr (old @ [data])))\<rparr>"
proof -
  from assms obtain apps where l: "load_applications cfg rd s = Inr apps"
    by (auto simp: save_application_data_def save_application_try_def
        split: prod.splits sum.splits)
  from assms l obtain old where a: "apps = JArr old"
    by (cases apps) (auto simp: save_application_data_def save_application_try_def
        split: prod.splits sum.splits)
  from assms l a show ?thesis
    by (auto simp: save_application_data_def save_application_try_def write_file_def
        split: prod.splits sum.splits io_outcome.splits)
qed

lemma save_application_data_False:
  assumes "save_application_data cfg data rd wr s = (Inr False, s')"
  shows "s' = s \<or> (\<exists>e part. wr = IoWriteFail e part \<and>
           s' = s\<lparr>fs := (fs s)(APPLICATIONS_DB cfg \<mapsto> Bytes part)\<rparr>)"
  using assms
  by (auto simp: save_application_data_def save_application_try_def write_file_def
      split: prod.splits sum.splits io_outcome.splits)

lemma send_career_returns:
  "\<exists>b s'. send_career_reply_email cfg rc a1 a2 a3 tm lg so s = (Inr b, s')"
  by (auto simp: send_career_reply_email_def split: prod.splits sum.splits)

lemma mail_send_fs: "fs (snd (mail_send m out s)) = fs s"
  by (auto simp: mail_send_def split: option.splits)

lemma send_html_fs: "fs (snd (send_html m h out s)) = fs s"
  using mail_send_fs [of "m\<lparr>m_html := Some h\<rparr>" out s]
  by (auto simp: send_html_def split: prod.splits sum.splits)

lemma career_try_fs: "fs (snd (career_try m a1 a2 a3 tm lg so s)) = fs s"
  by (auto simp: career_try_def send_html_fs split: sum.splits logo.splits)

lemma send_career_fs: "fs (snd (send_career_reply_email cfg rc a1 a2 a3 tm lg so s)) = fs s"
  using career_try_fs [of "career_message cfg rc a3" a1 a2 a3 tm lg so s]
  by (auto simp: send_career_reply_email_def split: prod.splits sum.splits)

lemma filled_email:
  "list_all (field_filled data) required_fields \<Longrightarrow> \<exists>e. data ''email'' = Some e"
  by (auto simp: required_fields_def field_filled_def split: option.splits)

lemma filled_phone:
  "list_all (field_filled data) required_fields \<Longrightarrow> \<exists>e. data ''phone'' = Some e"
  by (auto simp: required_fields_def field_filled_def split: option.splits)

lemma submit_application_accepted:
  assumes "accepted req up"
  shows "submit_application cfg req s = after_checks cfg req up s"
proof -
  obtain e p where e: "map_of (form req) ''email'' = Some e" "re_match email_re e"
    and p: "map_of (form req) ''phone'' = Some p" "re_match phone_re p"
    using assms by (auto simp: accepted_def split: option.splits)
  have f: "list_all (field_filled (map_of (form req))) required_fields"
    and r: "resume req = Some up" "u_filename up \<noteq> []"
    using assms by (auto simp: accepted_def)
  obtain r1 s1 where i: "save_resume cfg req up s = (r1, s1)" by fastforce
  obtain b s2 where d: "save_application_data cfg (application_data cfg req up)
      (store_read req) (store_write req) s1 = (Inr b, s2)"
    using save_application_data_returns by blast
  obtain c s3 where m: "send_career_reply_email cfg (form_get (map_of (form req)) ''email'')
      (form_get (map_of (form req)) ''firstName'') (form_get (map_of (form req)) ''lastName'')
      (form_get (map_of (form req)) ''applyingFor'')
      (template req) (logo_file req) (career_send req) s2 = (Inr c, s3)"
    using send_career_returns by blast
  show ?thesis
    unfolding submit_application_def submit_application_try_def after_checks_def Let_def
    using f e p r i d m by (cases r1; cases b) simp_all
qed

lemma submit_application_rejected:
  assumes "\<forall>up. \<not> accepted req up"
  shows "\<exists>m. submit_application cfg req s = (reply 400 False m, s)"
proof (cases "list_all (field_filled (map_of (form req))) required_fields")
  case False
  then have "submit_application cfg req s =
      (reply 400 False ''All required fields must be filled.'', s)"
    by (simp add: submit_application_def submit_application_try_def)
  then show ?thesis by blast
next
  case True
  then obtain e p where e: "map_of (form req) ''email'' = Some e"
    and p: "map_of (form req) ''phone'' = Some p"
    using filled_email filled_phone by blast
  show ?thesis
    using assms True e p
    unfolding submit_application_def submit_application_try_def Let_def accepted_def
    by (cases "resume req") auto
qed

section \<open>The contact handler on a JSON object\<close>

lemma send_contact_reply_email_returns:
  "fst (send_contact_reply_email cfg rc nm sb out s) = Inr (out = None)"
  by (auto simp: send_contact_reply_email_def mail_send_def Let_def split: option.splits)

lemma dict_get_JObj:
  "dict_get (JObj kvs) k = Inr (case map_of kvs k of None \<Rightarrow> JNull | Some v \<Rightarrow> v)"
  by simp

lemma submit_contact_object:
  assumes "c_json req = Inr (JObj kvs)"
  shows "submit_contact cfg req s =
    (if list_all (\<lambda>k. truthy (case map_of kvs k of None \<Rightarrow> JNull | Some v \<Rightarrow> v)) contact_fields
     then (reply 200 True (contact_ok_message (client_send req = None)),
           snd (send_contact_reply_email cfg
             (case map_of kvs ''email'' of None \<Rightarrow> JNull | Some v \<Rightarrow> v)
             (case map_of kvs ''name'' of None \<Rightarrow> JNull | Some v \<Rightarrow> v)
             (case map_of kvs ''subject'' of None \<Rightarrow> JNull | Some v \<Rightarrow> v)
             (client_send req)
             (notify_company cfg
               (case map_of kvs ''name'' of None \<Rightarrow> JNull | Some v \<Rightarrow> v)
               (case map_of kvs ''email'' of None \<Rightarrow> JNull | Some v \<Rightarrow> v)
               (case map_of kvs ''subject'' of None \<Rightarrow> JNull | Some v \<Rightarrow> v)
               (case map_of kvs ''message'' of None \<Rightarrow> JNull | Some v \<Rightarrow> v)
               (company_send req) s)))
     else (reply 400 False
             ''All required fields (Name, Email, Subject, Message) are missing.'', s))"
proof -
  define nm where "nm = (case map_of kvs ''name'' of None \<Rightarrow> JNull | Some v \<Rightarrow> v)"
  define em where "em = (case map_of kvs ''email'' of None \<Rightarrow> JNull | Some v \<Rightarrow> v)"
  define sb where "sb = (case map_of kvs ''subject'' of None \<Rightarrow> JNull | Some v \<Rightarrow> v)"
  define ms where "ms = (case map_of kvs ''message'' of None \<Rightarrow> JNull | Some v \<Rightarrow> v)"
  define s1 where "s1 = notify_company cfg nm em sb ms (company_send req) s"
  obtain s2 where c: "send_contact_reply_email cfg em nm sb (client_send req) s1
      = (Inr (client_send req = None), s2)"
    using send_contact_reply_email_returns [of cfg em nm sb "client_send req" s1]
    by (cases "send_contact_reply_email cfg em nm sb (client_send req) s1") auto
  show ?thesis
    unfolding submit_contact_def submit_contact_try_def contact_fields_def
    using assms c
    by (simp add: nm_def [symmetric] em_def [symmetric] sb_def [symmetric]
        ms_def [symmetric] s1_def [symmetric] Let_def)
qed

section \<open>Required fields of an application\<close>



section \<open>Valid contact submissions\<close>

text \<open>
  C2. When the body is a JSON object whose four fields are present and non-empty (truthy,
  which for a string means not the empty string), \<^verbatim>\<open>POST /submit_contact\<close> answers
  200 with \<open>success: true\<close>, whatever the outcome of the two sends and whatever the shape
  of the email value; only the text of the message depends on the confirmation send.
\<close>

theorem valid_contact_accepted:
  assumes "c_json req = Inr (JObj kvs)"
    and "\<forall>k \<in> set contact_fields. \<exists>v. map_of kvs k = Some v \<and> truthy v"
  shows "fst (submit_contact cfg req s) =
           reply 200 True (contact_ok_message (client_send req = None))"
proof -
  have "list_all (\<lambda>k. truthy (case map_of kvs k of None \<Rightarrow> JNull | Some v \<Rightarrow> v)) contact_fields"
    using assms(2) by (auto simp: list_all_iff)
  then show ?thesis
    by (simp add: submit_contact_object [OF assms(1)])
qed

theorem valid_contact_accepted_witness:
  "fst (submit_contact
     \<lparr>base_dir = ''/srv/app'', mail_default_sender = None,
      receiver_email = Some ''ops@example.com'', secure_filename = (\<lambda>n. n)\<rparr>
     \<lparr>c_json = Inr (JObj [(''name'', JStr ''Ann''), (''email'', JStr ''not-an-email''),
                          (''subject'', JStr ''Pricing''), (''message'', JStr ''Hi'')]),
      company_send = Some (MailError ''unreachable''),
      client_send = Some (MailError ''unreachable'')\<rparr>
     \<lparr>fs = Map.empty, outbox = []\<rparr>)
   = reply 200 True (contact_ok_message False)"
  using valid_contact_accepted [of
     "\<lparr>c_json = Inr (JObj [(''name'', JStr ''Ann''), (''email'', JStr ''not-an-email''),
                          (''subject'', JStr ''Pricing''), (''message'', JStr ''Hi'')]),
      company_send = Some (MailError ''unreachable''),
      client_send = Some (MailError ''unreachable'')\<rparr>"
     "[(''name'', JStr ''Ann''), (''email'', JStr ''not-an-email''),
       (''subject'', JStr ''Pricing''), (''message'', JStr ''Hi'')]"]
  by (simp add: contact_fields_def)

section \<open>Validation of a contact submission\<close>

text \<open>
  C1 does not hold as stated. The contact handler tests the four values with \<^verbatim>\<open>all([...])\<close>, that is for
  truthiness, and strips nothing: a name made of one space is accepted.
\<close>

theorem whitespace_contact_counterexample:
  "strip '' '' = [] \<and>
   http_status (fst (submit_contact
     \<lparr>base_dir = ''/srv/app'', mail_default_sender = None, receiver_email = None,
      secure_filename = (\<lambda>n. n)\<rparr>
     \<lparr>c_json = Inr (JObj [(''name'', JStr '' ''), (''email'', JStr ''ann@example.com''),
                          (''subject'', JStr ''Pricing''), (''message'', JStr ''Hi'')]),
      company_send = None, client_send = None\<rparr>
     \<lparr>fs = Map.empty, outbox = []\<rparr>)) = 200"
  by (simp add: strip_def is_space_def submit_contact_object contact_fields_def reply_def)

text \<open>
  C1, as the code has it. When the body is a JSON object,
  \<^verbatim>\<open>POST /submit_contact\<close> answers 400 with \<open>success: false\<close>, leaving the state as
  it was, exactly when one of the four fields is absent or falsy (\<open>null\<close>, the empty
  string, \<open>false\<close>, zero, an empty list or object); otherwise validation passes and the
  answer is 200. A string of whitespace only is not empty for this test.
\<close>

theorem contact_validation:
  assumes "c_json req = Inr (JObj kvs)"
  shows "if \<exists>k \<in> set contact_fields.
              case map_of kvs k of None \<Rightarrow> True | Some v \<Rightarrow> \<not> truthy v
         then submit_contact cfg req s =
                (reply 400 False
                   ''All required fields (Name, Email, Subject, Message) are missing.'', s)
         else http_status (fst (submit_contact cfg req s)) = 200"
proof -
  have "list_all (\<lambda>k. truthy (case map_of kvs k of None \<Rightarrow> JNull | Some v \<Rightarrow> v)) contact_fields
        \<longleftrightarrow> \<not> (\<exists>k \<in> set contact_fields. case map_of kvs k of None \<Rightarrow> True | Some v \<Rightarrow> \<not> truthy v)"
    by (auto simp: list_all_iff split: option.splits)
  then show ?thesis
    by (simp add: submit_contact_object [OF assms] reply_def)
qed

theorem contact_validation_witness:
  "submit_contact
     \<lparr>base_dir = ''/srv/app'', mail_default_sender = None, receiver_email = None,
      secure_filename = (\<lambda>n. n)\<rparr>
     \<lparr>c_json = Inr (JObj [(''name'', JStr ''Ann''), (''email'', JStr ''''),
                          (''subject'', JNull)]),
      company_send = None, client_send = None\<rparr>
     \<lparr>fs = Map.empty, outbox = []\<rparr>
   = (reply 400 False ''All required fields (Name, Email, Subject, Message) are missing.'',
      \<lparr>fs = Map.empty, outbox = []\<rparr>)"
  using contact_validation [of
     "\<lparr>c_json = Inr (JObj [(''name'', JStr ''Ann''), (''email'', JStr ''''),
                          (''subject'', JNull)]),
      company_send = None, client_send = None\<rparr>"
     "[(''name'', JStr ''Ann''), (''email'', JStr ''''), (''subject'', JNull)]"]
  by (simp add: contact_fields_def)

section \<open>The career confirmation mail\<close>




section \<open>A concrete run\<close>

lemma demo_accepted: "accepted (demo_request fu iu) demo_upload"
  by (simp add: accepted_def demo_request_def demo_form_def demo_upload_def required_fields_def
      field_filled_def strip_def is_space_def email_re_def phone_re_def non_space_at_def
      is_digit_def at_dollar_def upt_rec)

lemma demo_save_resume:
  "save_resume demo_config (demo_request fu iu) demo_upload s =
     (Inr (), s\<lparr>fs := (fs s)(resume_path demo_config (demo_request fu iu) demo_upload
        \<mapsto> Bytes ''%PDF'')\<rparr>)"
  by (simp add: save_resume_def write_file_def demo_request_def demo_upload_def)

lemma demo_broken_save:
  "fst (save_application_data demo_config d None IoOk
     (demo_broken\<lparr>fs := (fs demo_broken)(resume_path demo_config (demo_request fu iu) demo_upload
        \<mapsto> Bytes ''%PDF'')\<rparr>)) = Inr False"
  using resume_path_not_db [of demo_config "demo_request fu iu" demo_upload]
  by (auto simp: save_application_data_def save_application_try_def load_applications_def
      is_empty_file_def demo_broken_def)

section \<open>Failure of the record store\<close>

lemma after_checks_store_failure:
  assumes "save_resume cfg req up s = (Inr (), s1)"
    and "save_application_data cfg (application_data cfg req up)
           (store_read req) (store_write req) s1 = (Inr False, s2)"
  shows "after_checks cfg req up s =
           (reply 500 False ''Failed to save application. Please try again later.'', s2)"
  using assms by (simp add: after_checks_def)

lemma save_resume_ok:
  assumes "save_resume cfg req up s = (Inr (), s1)"
  shows "s1 = s\<lparr>fs := (fs s)(resume_path cfg req up \<mapsto> Bytes (u_content up))\<rparr>"
  using write_file_cases [OF assms [unfolded save_resume_def]] by auto

text \<open>
  C8. When a request has passed every check and its resume has been saved, and
  \<^verbatim>\<open>save_application_data\<close> then returns \<open>False\<close>, \<^verbatim>\<open>POST /submit_application\<close>
  answers 500 with \<open>success: false\<close> and a message asking to try again later; the
  confirmation mail is not attempted.
\<close>

theorem store_failure_is_fatal:
  assumes "accepted req up"
    and "save_resume cfg req up s = (Inr (), s1)"
    and "fst (save_application_data cfg (application_data cfg req up)
           (store_read req) (store_write req) s1) = Inr False"
  shows "fst (submit_application cfg req s) =
           reply 500 False ''Failed to save application. Please try again later.''
         \<and> outbox (snd (submit_application cfg req s)) = outbox s"
proof -
  obtain s2 where d: "save_application_data cfg (application_data cfg req up)
           (store_read req) (store_write req) s1 = (Inr False, s2)"
    using assms(3)
    by (cases "save_application_data cfg (application_data cfg req up)
           (store_read req) (store_write req) s1") auto
  have r: "submit_application cfg req s =
      (reply 500 False ''Failed to save application. Please try again later.'', s2)"
    using submit_application_accepted [OF assms(1)] after_checks_store_failure [OF assms(2) d]
    by simp
  have "outbox s2 = outbox s1"
    using save_application_data_False [OF d] by auto
  moreover have "outbox s1 = outbox s"
    using save_resume_ok [OF assms(2)] by simp
  ultimately show ?thesis using r by simp
qed

theorem store_failure_is_fatal_witness:
  "fst (submit_application demo_config (demo_request 1 2) demo_broken) =
     reply 500 False ''Failed to save application. Please try again later.''
   \<and> outbox (snd (submit_application demo_config (demo_request 1 2) demo_broken)) = []"
proof -
  have w: "store_read (demo_request 1 2) = None" "store_write (demo_request 1 2) = IoOk"
    by (simp_all add: demo_request_def)
  have f: "fst (save_application_data demo_config
      (application_data demo_config (demo_request 1 2) demo_upload)
      (store_read (demo_request 1 2)) (store_write (demo_request 1 2))
      (demo_broken\<lparr>fs := (fs demo_broken)(resume_path demo_config (demo_request 1 2) demo_upload
        \<mapsto> Bytes ''%PDF'')\<rparr>)) = Inr False"
    unfolding w by (rule demo_broken_save)
  from store_failure_is_fatal [OF demo_accepted demo_save_resume f]
  show ?thesis by (simp add: demo_broken_def)
qed

text \<open>
  C10. In the same situation the resume file written before the append is still on disk
  after the 500 answer, with the uploaded content, while the store file is either what it
  was before the request or the partial bytes of a failed write: no record was added, and
  nothing removes the file.
\<close>

theorem failed_store_leaves_resume:
  assumes "accepted req up"
    and "save_resume cfg req up s = (Inr (), s1)"
    and "fst (save_application_data cfg (application_data cfg req up)
           (store_read req) (store_write req) s1) = Inr False"
  shows "http_status (fst (submit_application cfg req s)) = 500
         \<and> fs (snd (submit_application cfg req s)) (resume_path cfg req up)
             = Some (Bytes (u_content up))
         \<and> (fs (snd (submit_application cfg req s)) (APPLICATIONS_DB cfg)
              = fs s (APPLICATIONS_DB cfg)
            \<or> (\<exists>part. fs (snd (submit_application cfg req s)) (APPLICATIONS_DB cfg)
                  = Some (Bytes part)))
         \<and> set (store_records cfg (snd (submit_application cfg req s)))
             \<subseteq> set (store_records cfg s)"
proof -
  obtain s2 where d: "save_application_data cfg (application_data cfg req up)
           (store_read req) (store_write req) s1 = (Inr False, s2)"
    using assms(3)
    by (cases "save_application_data cfg (application_data cfg req up)
           (store_read req) (store_write req) s1") auto
  have r: "submit_application cfg req s =
      (reply 500 False ''Failed to save application. Please try again later.'', s2)"
    using submit_application_accepted [OF assms(1)] after_checks_store_failure [OF assms(2) d]
    by simp
  have s1: "s1 = s\<lparr>fs := (fs s)(resume_path cfg req up \<mapsto> Bytes (u_content up))\<rparr>"
    by (rule save_resume_ok [OF assms(2)])
  have ne: "resume_path cfg req up \<noteq> APPLICATIONS_DB cfg"
    by (rule resume_path_not_db)
  from save_application_data_False [OF d]
  show ?thesis
  proof
    assume "s2 = s1"
    then show ?thesis using r s1 ne
      by (simp add: reply_def store_records_def)
  next
    assume "\<exists>e part. store_write req = IoWriteFail e part \<and>
           s2 = s1\<lparr>fs := (fs s1)(APPLICATIONS_DB cfg \<mapsto> Bytes part)\<rparr>"
    then show ?thesis using r s1 ne
      by (auto simp: reply_def store_records_def)
  qed
qed

theorem failed_store_leaves_resume_witness:
  "http_status (fst (submit_application demo_config (demo_request 1 2) demo_broken)) = 500
   \<and> fs (snd (submit_application demo_config (demo_request 1 2) demo_broken))
        ''/srv/app/resumes/00000000-0000-0000-0000-000000000001-cv.pdf'' = Some (Bytes ''%PDF'')
   \<and> (\<exists>part. fs (snd (submit_application demo_config (demo_request 1 2) demo_broken))
        ''/srv/app/applications.json'' = Some (Bytes part))"
proof -
  have w: "store_read (demo_request 1 2) = None" "store_write (demo_request 1 2) = IoOk"
    by (simp_all add: demo_request_def)
  have f: "fst (save_application_data demo_config
      (application_data demo_config (demo_request 1 2) demo_upload)
      (store_read (demo_request 1 2)) (store_write (demo_request 1 2))
      (demo_broken\<lparr>fs := (fs demo_broken)(resume_path demo_config (demo_request 1 2) demo_upload
        \<mapsto> Bytes ''%PDF'')\<rparr>)) = Inr False"
    unfolding w by (rule demo_broken_save)
  have p: "resume_path demo_config (demo_request 1 2) demo_upload
      = ''/srv/app/resumes/00000000-0000-0000-0000-000000000001-cv.pdf''"
    by code_simp
  have q: "APPLICATIONS_DB demo_config = ''/srv/app/applications.json''"
    by code_simp
  have u: "u_content demo_upload = ''%PDF''" by (simp add: demo_upload_def)
  from failed_store_leaves_resume [OF demo_accepted demo_save_resume f]
  show ?thesis
    unfolding p q u by (auto simp: demo_broken_def q)
qed

section \<open>UUID strings are distinct for distinct UUIDs\<close>










section \<open>The store across requests\<close>

lemma load_applications_records:
  "load_applications cfg rd s = Inr (JArr old) \<Longrightarrow> old = store_records cfg s"
  by (auto simp: load_applications_def store_records_def is_empty_file_def
      split: option.splits if_splits fdata.splits json.splits)

lemma store_records_fs:
  "fs s1 (APPLICATIONS_DB cfg) = fs s (APPLICATIONS_DB cfg) \<Longrightarrow>
   store_records cfg s1 = store_records cfg s"
  by (simp add: store_records_def)

lemma resume_on_disk_mono:
  "\<forall>p. fs s p \<noteq> None \<longrightarrow> fs s' p \<noteq> None \<Longrightarrow> resume_on_disk s r \<Longrightarrow> resume_on_disk s' r"
  by (auto simp: resume_on_disk_def split: json.splits option.splits)

lemma resume_on_disk_new:
  "fs s (resume_path cfg req up) \<noteq> None \<Longrightarrow> resume_on_disk s (application_data cfg req up)"
  by (auto simp: resume_on_disk_def application_data_def Let_def resume_path_nonempty)

text \<open>Every way a request can end.\<close>

lemma submit_application_cases:
  assumes "submit_application cfg req s = (r, s')"
  shows "(http_status r \<noteq> 200 \<and> (\<forall>p. fs s p \<noteq> None \<longrightarrow> fs s' p \<noteq> None) \<and>
          (fs s' (APPLICATIONS_DB cfg) = fs s (APPLICATIONS_DB cfg) \<or>
           (\<exists>part. fs s' (APPLICATIONS_DB cfg) = Some (Bytes part))))
       \<or> (http_status r = 200 \<and>
          (\<exists>up s1. accepted req up \<and> save_resume cfg req up s = (Inr (), s1) \<and>
             fs s' = (fs s1)(APPLICATIONS_DB cfg \<mapsto>
               JsonText (JArr (store_records cfg s @ [application_data cfg req up])))))"
proof (cases "\<exists>up. accepted req up")
  case False
  then obtain m where "submit_application cfg req s = (reply 400 False m, s)"
    using submit_application_rejected by blast
  with assms show ?thesis by (auto simp: reply_def)
next
  case True
  then obtain up where acc: "accepted req up" by blast
  have ne: "resume_path cfg req up \<noteq> APPLICATIONS_DB cfg" by (rule resume_path_not_db)
  obtain r1 s1 where i: "save_resume cfg req up s = (r1, s1)" by fastforce
  have a: "after_checks cfg req up s = (r, s')"
    using submit_application_accepted [OF acc] assms by simp
  from write_file_cases [OF i [unfolded save_resume_def]]
  consider (ok) "r1 = Inr ()" "s1 = s\<lparr>fs := (fs s)(resume_path cfg req up \<mapsto> Bytes (u_content up))\<rparr>"
    | (fail) e where "r1 = Inl e" "\<forall>p. fs s p \<noteq> None \<longrightarrow> fs s1 p \<noteq> None"
        "fs s1 (APPLICATIONS_DB cfg) = fs s (APPLICATIONS_DB cfg)"
    using ne by auto
  then show ?thesis
  proof cases
    case fail
    then have "r = reply 500 False ''An unexpected error occurred. Please try again later.''"
      and "s' = s1"
      using a i by (simp_all add: after_checks_def)
    with fail show ?thesis by (simp add: reply_def)
  next
    case ok
    have db: "fs s1 (APPLICATIONS_DB cfg) = fs s (APPLICATIONS_DB cfg)"
      and mono: "\<forall>p. fs s p \<noteq> None \<longrightarrow> fs s1 p \<noteq> None"
      using ok ne by auto
    obtain b s2 where d: "save_application_data cfg (application_data cfg req up)
        (store_read req) (store_write req) s1 = (Inr b, s2)"
      using save_application_data_returns by blast
    show ?thesis
    proof (cases b)
      case False
      then have r: "r = reply 500 False ''Failed to save application. Please try again later.''"
        and s': "s' = s2"
        using a i ok d by (simp_all add: after_checks_def)
      have d': "save_application_data cfg (application_data cfg req up)
        (store_read req) (store_write req) s1 = (Inr False, s2)"
        using d False by simp
      from save_application_data_False [OF d']
      have "(\<forall>p. fs s1 p \<noteq> None \<longrightarrow> fs s2 p \<noteq> None) \<and>
          (fs s2 (APPLICATIONS_DB cfg) = fs s1 (APPLICATIONS_DB cfg) \<or>
           (\<exists>part. fs s2 (APPLICATIONS_DB cfg) = Some (Bytes part)))"
        by auto
      with r s' db mono show ?thesis by (auto simp: reply_def)
    next
      case True
      have d': "save_application_data cfg (application_data cfg req up)
        (store_read req) (store_write req) s1 = (Inr True, s2)"
        using d True by simp
      from save_application_data_True [OF d']
      obtain old where l: "load_applications cfg (store_read req) s1 = Inr (JArr old)"
        and s2: "s2 = s1\<lparr>fs := (fs s1)(APPLICATIONS_DB cfg \<mapsto>
                  JsonText (JArr (old @ [application_data cfg req up])))\<rparr>"
        by blast
      have "old = store_records cfg s1" by (rule load_applications_records [OF l])
      then have old: "old = store_records cfg s" using store_records_fs [OF db] by simp
      have "r = application_ok" and
        "s' = snd (send_career_reply_email cfg (form_get (map_of (form req)) ''email'')
                  (form_get (map_of (form req)) ''firstName'')
                  (form_get (map_of (form req)) ''lastName'')
                  (form_get (map_of (form req)) ''applyingFor'')
                  (template req) (logo_file req) (career_send req) s2)"
        using a i ok d True by (simp_all add: after_checks_def)
      then have "http_status r = 200" and "fs s' = fs s2"
        by (simp_all add: application_ok_def send_career_fs)
      then show ?thesis
        using acc i ok s2 old by auto
    qed
  qed
qed

lemma submit_application_invariant:
  assumes "list_all (resume_on_disk s) (store_records cfg s)"
    and "submit_application cfg req s = (r, s')"
  shows "list_all (resume_on_disk s') (store_records cfg s')"
proof -
  from submit_application_cases [OF assms(2)]
  show ?thesis
  proof
    assume c: "http_status r \<noteq> 200 \<and> (\<forall>p. fs s p \<noteq> None \<longrightarrow> fs s' p \<noteq> None) \<and>
          (fs s' (APPLICATIONS_DB cfg) = fs s (APPLICATIONS_DB cfg) \<or>
           (\<exists>part. fs s' (APPLICATIONS_DB cfg) = Some (Bytes part)))"
    then have "store_records cfg s' = store_records cfg s \<or> store_records cfg s' = []"
      by (auto simp: store_records_def)
    then show ?thesis
      using assms(1) c resume_on_disk_mono [of s s']
      by (auto simp: list_all_iff)
  next
    assume "http_status r = 200 \<and>
          (\<exists>up s1. accepted req up \<and> save_resume cfg req up s = (Inr (), s1) \<and>
             fs s' = (fs s1)(APPLICATIONS_DB cfg \<mapsto>
               JsonText (JArr (store_records cfg s @ [application_data cfg req up]))))"
    then obtain up s1 where i: "save_resume cfg req up s = (Inr (), s1)"
      and f: "fs s' = (fs s1)(APPLICATIONS_DB cfg \<mapsto>
               JsonText (JArr (store_records cfg s @ [application_data cfg req up])))"
      by blast
    have s1: "s1 = s\<lparr>fs := (fs s)(resume_path cfg req up \<mapsto> Bytes (u_content up))\<rparr>"
      by (rule save_resume_ok [OF i])
    have mono: "\<forall>p. fs s p \<noteq> None \<longrightarrow> fs s' p \<noteq> None"
      using f s1 by auto
    have new: "resume_on_disk s' (application_data cfg req up)"
      by (rule resume_on_disk_new) (simp add: f s1)
    have "store_records cfg s' = store_records cfg s @ [application_data cfg req up]"
      using f by (simp add: store_records_def)
    then show ?thesis
      using assms(1) new resume_on_disk_mono [OF mono]
      by (auto simp: list_all_iff)
  qed
qed

lemma run_invariant:
  "list_all (resume_on_disk s) (store_records cfg s) \<Longrightarrow> run cfg reqs s = (rs, s') \<Longrightarrow>
   list_all (resume_on_disk s') (store_records cfg s')"
proof (induction reqs arbitrary: s rs)
  case Nil
  then show ?case by simp
next
  case (Cons req reqs)
  obtain r s1 where a: "submit_application cfg req s = (r, s1)" by fastforce
  obtain rs1 s2 where b: "run cfg reqs s1 = (rs1, s2)" by fastforce
  have "s' = s2" using Cons.prems(2) a b by simp
  moreover have "list_all (resume_on_disk s1) (store_records cfg s1)"
    by (rule submit_application_invariant [OF Cons.prems(1) a])
  ultimately show ?case using Cons.IH b by blast
qed

text \<open>
  C3. Start from a state in which every stored record has its resume on disk (for
  instance one with no store file) and handle any sequence of application requests. Then
  after each further request every record in the store still has a non-empty
  \<^verbatim>\<open>resume_path\<close> naming an existing file; and when that request succeeds, the
  store is the old one followed by the new record, whose resume was already on disk in
  the state \<^verbatim>\<open>save_application_data\<close> ran in, right after the resume was saved.
\<close>

theorem persisted_records_have_resume:
  assumes "list_all (resume_on_disk s0) (store_records cfg s0)"
    and "run cfg reqs s0 = (rs, s)"
    and "submit_application cfg req s = (r, s')"
  shows "list_all (resume_on_disk s') (store_records cfg s')
       \<and> (http_status r = 200 \<longrightarrow>
           (\<exists>up s1. resume req = Some up \<and> save_resume cfg req up s = (Inr (), s1) \<and>
              resume_on_disk s1 (application_data cfg req up) \<and>
              store_records cfg s' = store_records cfg s @ [application_data cfg req up]))"
proof -
  have inv: "list_all (resume_on_disk s) (store_records cfg s)"
    by (rule run_invariant [OF assms(1,2)])
  have 1: "list_all (resume_on_disk s') (store_records cfg s')"
    by (rule submit_application_invariant [OF inv assms(3)])
  have 2: "http_status r = 200 \<longrightarrow>
           (\<exists>up s1. resume req = Some up \<and> save_resume cfg req up s = (Inr (), s1) \<and>
              resume_on_disk s1 (application_data cfg req up) \<and>
              store_records cfg s' = store_records cfg s @ [application_data cfg req up])"
  proof
    assume "http_status r = 200"
    with submit_application_cases [OF assms(3)]
    obtain up s1 where acc: "accepted req up" and i: "save_resume cfg req up s = (Inr (), s1)"
      and f: "fs s' = (fs s1)(APPLICATIONS_DB cfg \<mapsto>
               JsonText (JArr (store_records cfg s @ [application_data cfg req up])))"
      by auto
    have s1: "s1 = s\<lparr>fs := (fs s)(resume_path cfg req up \<mapsto> Bytes (u_content up))\<rparr>"
      by (rule save_resume_ok [OF i])
    have "resume_on_disk s1 (application_data cfg req up)"
      by (rule resume_on_disk_new) (simp add: s1)
    moreover have "store_records cfg s' = store_records cfg s @ [application_data cfg req up]"
      using f by (simp add: store_records_def)
    moreover have "resume req = Some up" using acc by (simp add: accepted_def)
    ultimately show "\<exists>up s1. resume req = Some up \<and> save_resume cfg req up s = (Inr (), s1) \<and>
              resume_on_disk s1 (application_data cfg req up) \<and>
              store_records cfg s' = store_records cfg s @ [application_data cfg req up]"
      using i by blast
  qed
  from 1 2 show ?thesis by blast
qed

lemma demo_second_ok:
  "http_status (fst (submit_application demo_config (demo_request 3 4)
     (snd (run demo_config [demo_request 1 2] demo_state)))) = 200"
  by code_simp

theorem persisted_records_have_resume_witness:
  "http_status (fst (submit_application demo_config (demo_request 3 4)
     (snd (run demo_config [demo_request 1 2] demo_state)))) = 200
   \<and> list_all
       (resume_on_disk (snd (submit_application demo_config (demo_request 3 4)
          (snd (run demo_config [demo_request 1 2] demo_state)))))
       (store_records demo_config (snd (submit_application demo_config (demo_request 3 4)
          (snd (run demo_config [demo_request 1 2] demo_state)))))
   \<and> store_records demo_config (snd (submit_application demo_config (demo_request 3 4)
          (snd (run demo_config [demo_request 1 2] demo_state))))
       = store_records demo_config (snd (run demo_config [demo_request 1 2] demo_state))
          @ [application_data demo_config (demo_request 3 4) demo_upload]"
proof -
  have a: "list_all (resume_on_disk demo_state) (store_records demo_config demo_state)"
    by (simp add: demo_state_def store_records_def)
  have b: "run demo_config [demo_request 1 2] demo_state =
      (fst (run demo_config [demo_request 1 2] demo_state),
       snd (run demo_config [demo_request 1 2] demo_state))"
    by simp
  have c: "submit_application demo_config (demo_request 3 4)
       (snd (run demo_config [demo_request 1 2] demo_state)) =
      (fst (submit_application demo_config (demo_request 3 4)
         (snd (run demo_config [demo_request 1 2] demo_state))),
       snd (submit_application demo_config (demo_request 3 4)
         (snd (run demo_config [demo_request 1 2] demo_state))))"
    by simp
  have u: "resume (demo_request 3 4) = Some demo_upload" by (simp add: demo_request_def)
  from persisted_records_have_resume [OF a b c] demo_second_ok u
  show ?thesis by auto
qed









section \<open>What the two patterns accept\<close>

text \<open>
  \<^verbatim>\<open>re.match\<close> with either pattern accepts the strings of the specified format and,
  because of \<^verbatim>\<open>$\<close>, also each of them followed by one line feed; nothing else.
\<close>

lemma re_match_exact:
  "re_match (Rep c n (Some n) # ps) s \<longleftrightarrow>
     n \<le> length s \<and> list_all c (take n s) \<and> re_match ps (drop n s)"
  by (auto simp: list_ex_iff)


lemma phone_re_iff:
  "re_match phone_re p \<longleftrightarrow>
     10 \<le> length p \<and> hd p \<in> set ''6789'' \<and> list_all is_digit (take 9 (drop 1 p))
     \<and> at_dollar (drop 10 p)"
proof -
  have "1 \<le> length p \<Longrightarrow> take 1 p = [hd p]"
    by (cases p) simp_all
  then show ?thesis
    unfolding phone_re_def re_match_exact re_match.simps(1)
    by (auto simp del: set_simps)
qed

lemma six_to_nine_digit: "c \<in> set ''6789'' \<Longrightarrow> is_digit c"
  by (auto simp: is_digit_def)

lemma phone_shape_iff:
  "phone_shape p \<longleftrightarrow>
     length p = 10 \<and> hd p \<in> set ''6789'' \<and> list_all is_digit (take 9 (drop 1 p))"
proof (cases p)
  case Nil
  then show ?thesis by (simp add: phone_shape_def)
next
  case (Cons x xs)
  have "length p = 10 \<Longrightarrow> take 9 (drop 1 p) = xs"
    using Cons by simp
  then show ?thesis
    using Cons six_to_nine_digit [of x]
    unfolding phone_shape_def by (auto simp del: set_simps)
qed

lemma phone_re_shape:
  "re_match phone_re p \<longleftrightarrow>
     phone_shape p \<or> (\<exists>q. p = q @ [CHR 0x0A] \<and> phone_shape q)"
proof
  assume m: "re_match phone_re p"
  then have l: "10 \<le> length p" and h: "hd p \<in> set ''6789''"
    and d: "list_all is_digit (take 9 (drop 1 p))" and z: "at_dollar (drop 10 p)"
    unfolding phone_re_iff by blast+
  from z show "phone_shape p \<or> (\<exists>q. p = q @ [CHR 0x0A] \<and> phone_shape q)"
    unfolding at_dollar_def
  proof
    assume "drop 10 p = []"
    then have "length p = 10" using l by simp
    then show ?thesis using h d phone_shape_iff by blast
  next
    assume e: "drop 10 p = [CHR 0x0A]"
    define q where "q = take 10 p"
    have p: "p = q @ [CHR 0x0A]"
      using append_take_drop_id [of 10 p] e q_def by simp
    have "length q = 10" using l q_def by simp
    moreover have "hd q = hd p" using l q_def by (cases p) simp_all
    moreover have "take 9 (drop 1 q) = take 9 (drop 1 p)"
      unfolding q_def by (simp add: drop_take)
    ultimately have "phone_shape q" using h d phone_shape_iff by simp
    with p show ?thesis by blast
  qed
next
  assume "phone_shape p \<or> (\<exists>q. p = q @ [CHR 0x0A] \<and> phone_shape q)"
  then show "re_match phone_re p"
  proof
    assume "phone_shape p"
    then have "length p = 10" and "hd p \<in> set ''6789''"
      and "list_all is_digit (take 9 (drop 1 p))"
      unfolding phone_shape_iff by blast+
    moreover from \<open>length p = 10\<close> have "drop 10 p = []" by simp
    ultimately show ?thesis
      unfolding phone_re_iff at_dollar_def by simp
  next
    assume "\<exists>q. p = q @ [CHR 0x0A] \<and> phone_shape q"
    then obtain q where p: "p = q @ [CHR 0x0A]" and q: "phone_shape q" by blast
    have l: "length q = 10" and h: "hd q \<in> set ''6789''"
      and d: "list_all is_digit (take 9 (drop 1 q))"
      using q unfolding phone_shape_iff by blast+
    have "q \<noteq> []" using l by auto
    then have "hd p = hd q" using p by simp
    moreover have "take 9 (drop 1 p) = take 9 (drop 1 q)" using p l by simp
    moreover have "drop 10 p = [CHR 0x0A]" using p l by simp
    ultimately show ?thesis
      unfolding phone_re_iff using l h d p by (simp add: at_dollar_def)
  qed
qed





lemma non_space_at_not_lf: "non_space_at c \<Longrightarrow> c \<noteq> CHR 0x0A"
  by (auto simp: non_space_at_def is_space_def)


lemma no_trailing_lf: "e = [] \<or> last e \<noteq> CHR 0x0A \<Longrightarrow> \<not> (\<exists>q. e = q @ [CHR 0x0A])"
  by auto

section \<open>The phone format\<close>

lemma invalid_phone_rejected:
  assumes "list_all (field_filled (map_of (form req))) required_fields"
    and "map_of (form req) ''phone'' = Some p"
    and "\<not> phone_shape p"
    and "p = [] \<or> last p \<noteq> CHR 0x0A"
  shows "http_status (fst (submit_application cfg req s)) = 400"
proof -
  have n: "\<not> re_match phone_re p"
    unfolding phone_re_shape using assms(3) no_trailing_lf [OF assms(4)] by blast
  obtain e where e: "map_of (form req) ''email'' = Some e"
    using filled_email [OF assms(1)] by blast
  show ?thesis
    using assms(1,2) n e
    by (cases "re_match email_re e")
       (simp_all add: submit_application_def submit_application_try_def reply_def Let_def)
qed

lemma phone_examples:
  "\<not> re_match phone_re ''5123456789'' \<and> re_match phone_re ''9123456789''"
  by (simp add: phone_re_shape phone_shape_def is_digit_def)

text \<open>
  C5. A phone value that is not of the format and does not end in a line feed is answered
  400 (\<open>invalid_phone_rejected\<close>), \<^verbatim>\<open>5123456789\<close> is refused and \<^verbatim>\<open>9123456789\<close>
  passes the check (\<open>phone_examples\<close>). But the eleven characters \<^verbatim>\<open>9123456789\n\<close>,
  which are not ten digits, pass the check too, and the request is answered 200.
\<close>

theorem phone_trailing_newline_accepted:
  "\<not> phone_shape ''9123456789\<newline>''
   \<and> http_status (fst (submit_application demo_config
        ((demo_request 1 2)\<lparr>form := (''phone'', ''9123456789\<newline>'') # demo_form\<rparr>) demo_state))
     = 200"
  by code_simp

section \<open>The email format\<close>




lemma email_trailing_newline_accepted:
  "\<not> email_shape ''ann@example.com\<newline>''
   \<and> http_status (fst (submit_application demo_config
        ((demo_request 1 2)\<lparr>form := (''email'', ''ann@example.com\<newline>'') # demo_form\<rparr>) demo_state))
     = 200"
  by code_simp

end
